theory Spec2Isabelle
  imports
    Main
    "HOL-Library.Char_ord"
    "HOL-Library.List_Lexorder"
    "HOL-Library.Product_Lexorder"
    "HOL-Library.Multiset"
begin

section \<open>The to-do list assistant of main.py\<close>

text \<open>
  The program is one class, \<open>ToDoListAssistant\<close>, with the task list \<open>self.tasks\<close> as
  its only mutable state and three methods: \<open>add_task\<close>, \<open>list_tasks\<close> and the read loop
  \<open>run\<close>. The language-model chain (\<open>prompt | model | parser\<close>) is a library: what
  \<open>self.chain.invoke\<close> does on one call is an input of the model (\<open>chain_result\<close>).

  Strings are \<open>string\<close>, compared as Python compares \<open>str\<close>: character by character,
  a proper prefix first (\<open>HOL-Library.List_Lexorder\<close> over \<open>HOL-Library.Char_ord\<close>). A
  \<open>char\<close> is a byte; on UTF-8 text the order of the bytes is the order of the code
  points.
  Tuples compare lexicographically (\<open>HOL-Library.Product_Lexorder\<close>).
\<close>

subsection \<open>Values\<close>

text \<open>
  The values the oracle puts into a parameters mapping. The prompt asks for text
  (\<open>description\<close>, \<open>due_date\<close>, \<open>priority\<close>, \<open>message\<close>); JSON \<open>null\<close> is Python's
  \<open>None\<close>, which is also the default of \<open>due_date\<close>. Numbers, arrays and nested
  objects as parameter values are outside this model.
\<close>

datatype pyval = PNone | PStr string

text \<open>Python's truth value: \<open>None\<close> and the empty string are false.\<close>

fun truthy :: "pyval \<Rightarrow> bool" where
  "truthy PNone = False"
| "truthy (PStr s) = (s \<noteq> [])"

text \<open>What an f-string prints for a value.\<close>

fun fmt :: "pyval \<Rightarrow> string" where
  "fmt PNone = ''None''"
| "fmt (PStr s) = s"

text \<open>
  A value one level below the top of the parsed command: a plain value, or a
  dictionary of plain values (an association list read with \<open>map_of\<close>).
\<close>

datatype pyobj = Val pyval | Dict "(string \<times> pyval) list"

text \<open>
  What the parser returns: \<open>JsonOutputParser\<close> returns whatever the JSON text denotes,
  a dictionary (\<open>TopDict\<close>) or not (\<open>NonDict\<close>).
\<close>

datatype structured_command = NonDict pyval | TopDict "(string \<times> pyobj) list"

text \<open>
  The exceptions of the program. \<open>OracleFailure\<close> stands for any other \<open>Exception\<close>
  the chain raises (network, rate limit), with its message.
\<close>

datatype exn =
    OutputParserException
  | AttributeError
  | TypeError
  | EOFError
  | OracleFailure string

datatype chain_result = Raises exn | Returns structured_command


text \<open>What \<open>input()\<close> does on one call: it returns a line or raises \<open>EOFError\<close>.\<close>

datatype console = Line string | EOF

subsection \<open>Tasks and printed lines\<close>

text \<open>
  The dictionary \<open>add_task\<close> builds, with its five keys; \<open>task_id\<close> is the key \<open>id\<close>.
\<close>

record task =
  task_id :: int
  description :: pyval
  due_date :: pyval
  priority :: pyval
  status :: string

text \<open>
  One constructor per \<open>print\<close> of the program, carrying the values it interpolates:
  \<^item> \<open>TaskAdded d p\<close>: "Task added: 'd' (Priority: p)"
  \<^item> \<open>EmptyList\<close>: "Your to-do list is empty!"
  \<^item> \<open>ListHeader\<close>, \<open>ListFooter\<close>: the two rules around the list
  \<^item> \<open>TaskLine i d date_str p\<close>: "  - [ID: i] d date_str [Priority: p]"
  \<^item> \<open>Goodbye\<close>: "Goodbye!"
  \<^item> \<open>ErrorMessage m\<close>: the message of an \<open>error\<close> command
  \<^item> \<open>Rephrase\<close>: "I had a little trouble understanding that. Could you please rephrase?"
  \<^item> \<open>Unexpected e\<close>: "An unexpected error occurred: e"
\<close>

datatype printed =
    TaskAdded pyval pyval
  | EmptyList
  | ListHeader
  | TaskLine int pyval string pyval
  | ListFooter
  | Goodbye
  | ErrorMessage pyval
  | Rephrase
  | Unexpected exn

subsection \<open>add_task\<close>

text \<open>
  \<open>def add_task(self, description, due_date=None, priority='medium')\<close>: the new task
  gets \<open>len(self.tasks) + 1\<close> as id and is appended; one line is printed. The store is
  passed in and returned.
\<close>

definition add_task ::
  "task list \<Rightarrow> pyval \<Rightarrow> pyval \<Rightarrow> pyval \<Rightarrow> task list \<times> printed list" where
  "add_task tasks d dd p =
     (tasks @ [\<lparr>task_id = int (length tasks) + 1, description = d, due_date = dd,
                 priority = p, status = ''pending''\<rparr>],
      [TaskAdded d p])"

text \<open>
  The call \<open>self.add_task(**params)\<close>. Python binds the keywords before the body
  runs: a key that is no parameter of \<open>add_task\<close>, or no \<open>description\<close>, raises
  \<open>TypeError\<close>; \<open>due_date\<close> and \<open>priority\<close> take their defaults when absent. A
  \<open>params\<close> that is not a mapping raises \<open>TypeError\<close> too.
\<close>

definition get_default :: "(string \<times> 'a) list \<Rightarrow> string \<Rightarrow> 'a \<Rightarrow> 'a" where
  "get_default d k dflt = (case map_of d k of None \<Rightarrow> dflt | Some v \<Rightarrow> v)"

definition add_task_kwargs ::
  "task list \<Rightarrow> pyobj \<Rightarrow> exn + task list \<times> printed list" where
  "add_task_kwargs tasks params =
     (case params of
        Val v \<Rightarrow> Inl TypeError
      | Dict kw \<Rightarrow>
          if list_ex (\<lambda>k. k \<notin> set [''description'', ''due_date'', ''priority''])
               (map fst kw)
          then Inl TypeError
          else (case map_of kw ''description'' of
                  None \<Rightarrow> Inl TypeError
                | Some d \<Rightarrow>
                    Inr (add_task tasks d (get_default kw ''due_date'' PNone)
                           (get_default kw ''priority'' (PStr ''medium'')))))"

subsection \<open>list_tasks\<close>

text \<open>The sort key \<open>(x.get('due_date') or 'z', x['id'])\<close>.\<close>

fun or_z :: "pyval \<Rightarrow> string" where
  "or_z PNone = ''z''"
| "or_z (PStr s) = (if s = [] then ''z'' else s)"

definition sort_key_of :: "task \<Rightarrow> string \<times> int" where
  "sort_key_of x = (or_z (due_date x), task_id x)"

text \<open>
  \<open>sorted(self.tasks, key=...)\<close> is a stable sort into a new list; the result of a
  stable sort is determined by the keys, and \<open>sort_key\<close> (insertion sort) is one.
\<close>

definition sorted_tasks :: "task list \<Rightarrow> task list" where
  "sorted_tasks tasks = sort_key sort_key_of tasks"

text \<open>\<open>f" (Due: {task['due_date']})" if task['due_date'] else ""\<close>\<close>

definition date_str :: "task \<Rightarrow> string" where
  "date_str t = (if truthy (due_date t) then '' (Due: '' @ fmt (due_date t) @ '')'' else [])"

definition task_line :: "task \<Rightarrow> printed" where
  "task_line t = TaskLine (task_id t) (description t) (date_str t) (priority t)"

definition list_tasks :: "task list \<Rightarrow> task list \<times> printed list" where
  "list_tasks tasks =
     (if tasks = [] then (tasks, [EmptyList])
      else (tasks, [ListHeader] @ map task_line (sorted_tasks tasks) @ [ListFooter]))"

subsection \<open>The read loop\<close>

text \<open>
  \<open>str.lower\<close> on the letters that matter here: \<open>A\<close> to \<open>Z\<close> become \<open>a\<close> to \<open>z\<close>. No
  character outside ASCII lower-cases to one of the letters of \<open>quit\<close> or \<open>exit\<close>, so
  the test \<open>user_input.lower() in ['quit', 'exit']\<close> is decided by this function.
\<close>

definition lower_char :: "char \<Rightarrow> char" where
  "lower_char c =
     (if CHR ''A'' \<le> c \<and> c \<le> CHR ''Z'' then char_of (of_char c + (32::nat)) else c)"

definition lower :: "string \<Rightarrow> string" where
  "lower s = map lower_char s"

text \<open>The test \<open>user_input.lower() in ['quit', 'exit']\<close>.\<close>

definition wants_quit :: "string \<Rightarrow> bool" where
  "wants_quit user_input = (lower user_input \<in> set [''quit'', ''exit''])"

datatype control = Break | Continue

text \<open>
  The body of the \<open>try\<close> after the quit test: the chain is invoked, then the command
  is dispatched. \<open>structured_command.get\<close> raises \<open>AttributeError\<close> when the parser
  returned no dictionary; \<open>params.get\<close> likewise when \<open>parameters\<close> is no dictionary.
  There is no \<open>else\<close> branch: any other action does nothing.
\<close>

definition dispatch ::
  "task list \<Rightarrow> structured_command \<Rightarrow> exn + task list \<times> printed list" where
  "dispatch tasks sc =
     (case sc of
        NonDict v \<Rightarrow> Inl AttributeError
      | TopDict cmd \<Rightarrow>
          let action = get_default cmd ''action'' (Val PNone);
              params = get_default cmd ''parameters'' (Dict [])
          in if action = Val (PStr ''add_task'') then add_task_kwargs tasks params
             else if action = Val (PStr ''list_tasks'') then Inr (list_tasks tasks)
             else if action = Val (PStr ''error'') then
               (case params of
                  Val v \<Rightarrow> Inl AttributeError
                | Dict kw \<Rightarrow>
                    Inr (tasks, [ErrorMessage (get_default kw ''message''
                                   (PStr ''Sorry, I did not understand that.''))]))
             else Inr (tasks, []))"

definition try_body ::
  "task list \<Rightarrow> console \<times> chain_result \<Rightarrow> exn + task list \<times> printed list \<times> control" where
  "try_body tasks ev =
     (case fst ev of
        EOF \<Rightarrow> Inl EOFError
      | Line user_input \<Rightarrow>
          if wants_quit user_input then Inr (tasks, [Goodbye], Break)
          else (case snd ev of
                  Raises e \<Rightarrow> Inl e
                | Returns sc \<Rightarrow>
                    (case dispatch tasks sc of
                       Inl e \<Rightarrow> Inl e
                     | Inr (tasks', out) \<Rightarrow> Inr (tasks', out, Continue))))"

text \<open>
  One iteration of \<open>while True\<close>, with the two handlers. No exception is raised
  after \<open>self.tasks.append\<close>, so a turn that raises leaves the store as it was.
\<close>

definition turn ::
  "task list \<Rightarrow> console \<times> chain_result \<Rightarrow> task list \<times> printed list \<times> control" where
  "turn tasks ev =
     (case try_body tasks ev of
        Inr r \<Rightarrow> r
      | Inl OutputParserException \<Rightarrow> (tasks, [Rephrase], Continue)
      | Inl e \<Rightarrow> (tasks, [Unexpected e], Continue))"

text \<open>
  The loop over a finite script of turns: it stops at the first \<open>Break\<close>; when the
  script is used up the loop is still running (\<open>Continue\<close>), waiting for input.
\<close>

fun run ::
  "task list \<Rightarrow> (console \<times> chain_result) list \<Rightarrow> task list \<times> printed list \<times> control" where
  "run tasks [] = (tasks, [], Continue)"
| "run tasks (ev # evs) =
     (case turn tasks ev of
        (tasks', out, Break) \<Rightarrow> (tasks', out, Break)
      | (tasks', out, Continue) \<Rightarrow>
          (case run tasks' evs of (tasks'', out', c) \<Rightarrow> (tasks'', out @ out', c)))"

text \<open>The stores a session can reach: \<open>__init__\<close> starts with the empty list.\<close>

inductive reachable :: "task list \<Rightarrow> bool" where
  init: "reachable []"
| step: "reachable tasks \<Longrightarrow> reachable (fst (turn tasks ev))"

subsection \<open>Dates, for stating the order of the list\<close>

text \<open>
  The program never parses a date: a due date is the string the oracle gave. These
  definitions say what a \<open>YYYY-MM-DD\<close> string is and which date (year, month, day) it
  denotes, so that "ascending date order" can be stated about dates and not only
  about strings. \<open>blank_as_none\<close> replaces an empty due date by \<open>None\<close>; it serves to
  compare what \<open>list_tasks\<close> prints for the two.
\<close>

definition is_digit :: "char \<Rightarrow> bool" where
  "is_digit c = (CHR ''0'' \<le> c \<and> c \<le> CHR ''9'')"

definition digit_val :: "char \<Rightarrow> nat" where
  "digit_val c = of_char c - 48"

fun is_ymd :: "string \<Rightarrow> bool" where
  "is_ymd [y1, y2, y3, y4, h1, m1, m2, h2, d1, d2] =
     (is_digit y1 \<and> is_digit y2 \<and> is_digit y3 \<and> is_digit y4 \<and> h1 = CHR ''-'' \<and>
      is_digit m1 \<and> is_digit m2 \<and> h2 = CHR ''-'' \<and> is_digit d1 \<and> is_digit d2)"
| "is_ymd _ = False"

fun ymd_date :: "string \<Rightarrow> nat \<times> nat \<times> nat" where
  "ymd_date [y1, y2, y3, y4, h1, m1, m2, h2, d1, d2] =
     (1000 * digit_val y1 + 100 * digit_val y2 + 10 * digit_val y3 + digit_val y4,
      10 * digit_val m1 + digit_val m2,
      10 * digit_val d1 + digit_val d2)"
| "ymd_date _ = (0, 0, 0)"


subsection \<open>Oracle texts, for running the model\<close>


section \<open>Properties\<close>

subsection \<open>What a turn does to the store\<close>

text \<open>
  The only statement of the program that changes \<open>self.tasks\<close> is the \<open>append\<close> of
  \<open>add_task\<close>: a turn leaves the store as it was or appends one task to it.
\<close>

lemma add_task_kwargs_store:
  "add_task_kwargs tasks params = Inr (tasks', out) \<Longrightarrow>
     \<exists>d dd p. add_task tasks d dd p = (tasks', out)"
  unfolding add_task_kwargs_def
  by (auto split: pyobj.splits if_splits option.splits)

lemma dispatch_store:
  assumes "dispatch tasks sc = Inr (tasks', out)"
  shows "tasks' = tasks \<or> (\<exists>d dd p. add_task tasks d dd p = (tasks', out))"
proof (cases sc)
  case (NonDict v)
  with assms show ?thesis by (simp add: dispatch_def)
next
  case (TopDict cmd)
  with assms show ?thesis
    by (auto simp: dispatch_def Let_def list_tasks_def
        split: if_splits pyobj.splits dest: add_task_kwargs_store)
qed

lemma try_body_store:
  assumes "try_body tasks ev = Inr (tasks', out, c)"
  shows "tasks' = tasks \<or> (\<exists>d dd p. add_task tasks d dd p = (tasks', out))"
  using assms dispatch_store [of tasks _ tasks' out]
  by (auto simp: try_body_def split: console.splits if_splits chain_result.splits sum.splits)

lemma turn_store:
  "fst (turn tasks ev) = tasks \<or> (\<exists>d dd p. fst (turn tasks ev) = fst (add_task tasks d dd p))"
proof (cases "try_body tasks ev")
  case (Inl e)
  then show ?thesis by (cases e) (simp_all add: turn_def)
next
  case (Inr r)
  obtain tasks' out c where r: "r = (tasks', out, c)" by (cases r)
  from try_body_store [of tasks ev tasks' out c] Inr r show ?thesis
    by (auto simp: turn_def) (metis fst_conv)
qed

lemma turn_control_raise:
  "try_body tasks ev = Inl e \<Longrightarrow> snd (snd (turn tasks ev)) = Continue \<and> fst (turn tasks ev) = tasks"
  by (cases e) (simp_all add: turn_def)

lemma reachable_ids:
  "reachable tasks \<Longrightarrow> map task_id tasks = map int [1..<Suc (length tasks)]"
proof (induction rule: reachable.induct)
  case init
  show ?case by simp
next
  case (step tasks ev)
  from turn_store [of tasks ev] show ?case
  proof
    assume "fst (turn tasks ev) = tasks"
    with step.IH show ?thesis by simp
  next
    assume "\<exists>d dd p. fst (turn tasks ev) = fst (add_task tasks d dd p)"
    with step.IH show ?thesis by (auto simp: add_task_def)
  qed
qed

lemma reachable_status:
  "reachable tasks \<Longrightarrow> list_all (\<lambda>t. status t = ''pending'') tasks"
proof (induction rule: reachable.induct)
  case init
  show ?case by simp
next
  case (step tasks ev)
  from turn_store [of tasks ev] show ?case
  proof
    assume "fst (turn tasks ev) = tasks"
    with step.IH show ?thesis by simp
  next
    assume "\<exists>d dd p. fst (turn tasks ev) = fst (add_task tasks d dd p)"
    with step.IH show ?thesis by (auto simp: add_task_def)
  qed
qed

lemma turn_keeps_prefix: "take (length tasks) (fst (turn tasks ev)) = tasks"
  using turn_store [of tasks ev] by (auto simp: add_task_def)

subsection \<open>What a turn does to the loop\<close>




lemma turn_dispatch:
  "\<not> wants_quit l \<Longrightarrow>
   turn tasks (Line l, Returns sc) =
     (case dispatch tasks sc of
        Inr (tasks', out) \<Rightarrow> (tasks', out, Continue)
      | Inl OutputParserException \<Rightarrow> (tasks, [Rephrase], Continue)
      | Inl e \<Rightarrow> (tasks, [Unexpected e], Continue))"
  by (simp add: turn_def try_body_def split: sum.splits exn.splits)





lemma not_quit_examples:
  "\<not> wants_quit ''hello''" "\<not> wants_quit ''add''" "\<not> wants_quit ''list''"
  "\<not> wants_quit ''quit ''" "wants_quit ''Quit''" "wants_quit ''EXIT''"
  by code_simp+

lemma sorted_ids: "sorted_wrt (<) (map int [1..<Suc n])"
  by (simp add: sorted_wrt_map del: upt_Suc)

subsection \<open>Identifiers\<close>

text \<open>
  Claim C2. In every store state of \<open>n\<close> tasks, \<open>add_task\<close> gives the new task the id
  \<open>n + 1\<close> and appends it, so the store has exactly one task more. Consequently, in
  every store a session reaches, the ids are \<open>1, ..., n\<close> in insertion order (strictly
  increasing), and no turn changes a task already stored (ids are never reassigned).
\<close>

theorem add_task_next_id:
  "(\<exists>t. fst (add_task tasks d dd p) = tasks @ [t] \<and> task_id t = int (length tasks) + 1)
   \<and> length (fst (add_task tasks d dd p)) = length tasks + 1
   \<and> (reachable tasks \<longrightarrow>
        map task_id tasks = map int [1..<Suc (length tasks)]
        \<and> sorted_wrt (<) (map task_id tasks)
        \<and> (\<forall>ev. take (length tasks) (fst (turn tasks ev)) = tasks))"
proof -
  have "reachable tasks \<Longrightarrow> sorted_wrt (<) (map task_id tasks)"
    using reachable_ids [of tasks] sorted_ids [of "length tasks"] by simp
  then show ?thesis
    by (auto simp: add_task_def reachable_ids turn_keeps_prefix simp del: upt_Suc)
qed

theorem add_task_next_id_witness:
  "reachable
     [\<lparr>task_id = 1, description = PStr ''Pay bill'', due_date = PStr ''2025-08-18'',
       priority = PStr ''medium'', status = ''pending''\<rparr>]
   \<and> fst (add_task
        [\<lparr>task_id = 1, description = PStr ''Pay bill'', due_date = PStr ''2025-08-18'',
          priority = PStr ''medium'', status = ''pending''\<rparr>]
        (PStr ''Call mum'') PNone (PStr ''high'')) =
      [\<lparr>task_id = 1, description = PStr ''Pay bill'', due_date = PStr ''2025-08-18'',
        priority = PStr ''medium'', status = ''pending''\<rparr>,
       \<lparr>task_id = 2, description = PStr ''Call mum'', due_date = PNone,
        priority = PStr ''high'', status = ''pending''\<rparr>]
   \<and> map task_id
        [\<lparr>task_id = 1, description = PStr ''Pay bill'', due_date = PStr ''2025-08-18'',
          priority = PStr ''medium'', status = ''pending''\<rparr>] = [1]"
proof -
  let ?ev = "(Line ''add'', Returns (TopDict
      [(''action'', Val (PStr ''add_task'')),
       (''parameters'', Dict [(''description'', PStr ''Pay bill''),
          (''due_date'', PStr ''2025-08-18''), (''priority'', PStr ''medium'')])]))"
  let ?t = "\<lparr>task_id = 1, description = PStr ''Pay bill'', due_date = PStr ''2025-08-18'',
       priority = PStr ''medium'', status = ''pending''\<rparr>"
  have "fst (turn [] ?ev) = [?t]"
    by (simp add: turn_dispatch not_quit_examples dispatch_def get_default_def
        add_task_kwargs_def add_task_def)
  with reachable.step [OF reachable.init, of ?ev] have r: "reachable [?t]" by simp
  from add_task_next_id [of "[?t]" "PStr ''Call mum''" PNone "PStr ''high''"] r
  show ?thesis by (simp add: add_task_def)
qed

subsection \<open>Listing reads and does not write\<close>

text \<open>
  Claim C6. In every store state, \<open>list_tasks\<close> has no effect on the store and is
  deterministic: the store it returns is the store it was given, a second call
  right after the first prints the same sequence, and a turn (or two turns in a row)
  whose command is \<open>list_tasks\<close> leaves the store as it was and prints that sequence
  each time.
\<close>
theorem list_tasks_read_only:
  "fst (list_tasks tasks) = tasks
   \<and> snd (list_tasks (fst (list_tasks tasks))) = snd (list_tasks tasks)
   \<and> (\<not> wants_quit l \<and> map_of cmd ''action'' = Some (Val (PStr ''list_tasks'')) \<longrightarrow>
        turn tasks (Line l, Returns (TopDict cmd)) = (tasks, snd (list_tasks tasks), Continue)
        \<and> run tasks [(Line l, Returns (TopDict cmd)), (Line l, Returns (TopDict cmd))] =
            (tasks, snd (list_tasks tasks) @ snd (list_tasks tasks), Continue))"
proof -
  have fst_list: "fst (list_tasks tasks) = tasks"
    by (simp add: list_tasks_def)
  have "turn tasks (Line l, Returns (TopDict cmd)) = (tasks, snd (list_tasks tasks), Continue)"
    if "\<not> wants_quit l" "map_of cmd ''action'' = Some (Val (PStr ''list_tasks''))"
    using that fst_list
    by (cases "list_tasks tasks") (simp add: turn_dispatch dispatch_def get_default_def)
  with fst_list show ?thesis by simp
qed

theorem list_tasks_read_only_witness:
  "\<not> wants_quit ''list''
   \<and> turn [\<lparr>task_id = 1, description = PStr ''Pay bill'', due_date = PNone,
               priority = PStr ''medium'', status = ''pending''\<rparr>]
        (Line ''list'', Returns (TopDict [(''action'', Val (PStr ''list_tasks'')),
                                           (''parameters'', Dict [])])) =
      ([\<lparr>task_id = 1, description = PStr ''Pay bill'', due_date = PNone,
          priority = PStr ''medium'', status = ''pending''\<rparr>],
       [ListHeader, TaskLine 1 (PStr ''Pay bill'') [] (PStr ''medium''), ListFooter],
       Continue)"
  using list_tasks_read_only
    [of "[\<lparr>task_id = 1, description = PStr ''Pay bill'', due_date = PNone,
            priority = PStr ''medium'', status = ''pending''\<rparr>]"
        "''list''"
        "[(''action'', Val (PStr ''list_tasks'')), (''parameters'', Dict [])]"]
    not_quit_examples
  by (simp add: list_tasks_def sorted_tasks_def task_line_def date_str_def)

subsection \<open>Status\<close>

text \<open>
  Claim C8. \<open>add_task\<close> always sets the status of the new task to \<open>pending\<close>; no
  operation changes a stored task (\<open>add_task\<close> and every turn keep the stored tasks as a
  prefix, \<open>list_tasks\<close> returns the store as it was); so in every store a session
  reaches, every task has status \<open>pending\<close>.
\<close>
theorem status_always_pending:
  "status (last (fst (add_task tasks d dd p))) = ''pending''
   \<and> take (length tasks) (fst (add_task tasks d dd p)) = tasks
   \<and> fst (list_tasks tasks) = tasks
   \<and> take (length tasks) (fst (turn tasks ev)) = tasks
   \<and> (reachable tasks \<longrightarrow> (\<forall>t \<in> set tasks. status t = ''pending''))"
  using reachable_status [of tasks]
  by (auto simp: add_task_def list_tasks_def turn_keeps_prefix list_all_iff)

theorem status_always_pending_witness:
  "reachable
     [\<lparr>task_id = 1, description = PStr ''Pay bill'', due_date = PStr ''2025-08-18'',
       priority = PStr ''high'', status = ''pending''\<rparr>]
   \<and> status \<lparr>task_id = 1, description = PStr ''Pay bill'', due_date = PStr ''2025-08-18'',
       priority = PStr ''high'', status = ''pending''\<rparr> = ''pending''"
proof -
  let ?ev = "(Line ''add'', Returns (TopDict
      [(''action'', Val (PStr ''add_task'')),
       (''parameters'', Dict [(''description'', PStr ''Pay bill''),
          (''due_date'', PStr ''2025-08-18''), (''priority'', PStr ''high'')])]))"
  let ?t = "\<lparr>task_id = 1, description = PStr ''Pay bill'', due_date = PStr ''2025-08-18'',
       priority = PStr ''high'', status = ''pending''\<rparr>"
  have "fst (turn [] ?ev) = [?t]"
    by (simp add: turn_dispatch not_quit_examples dispatch_def get_default_def
        add_task_kwargs_def add_task_def)
  with reachable.step [OF reachable.init, of ?ev] have r: "reachable [?t]" by simp
  from status_always_pending [of "[?t]" PNone PNone PNone ?ev] r
  show ?thesis by simp
qed

subsection \<open>Parameters outside the signature of add_task\<close>




subsection \<open>Oracle output that is no command\<close>





text \<open>
  Against claim C4 as stated. A command whose action is \<open>remove_task\<close>, and a command
  with no action key: no branch of the \<open>if\<close> chain matches and there is no \<open>else\<close>, so
  the turn prints nothing at all.
\<close>
theorem unknown_action_silent:
  "\<not> wants_quit ''hello''
   \<and> turn [] (Line ''hello'', Returns (TopDict
        [(''action'', Val (PStr ''remove_task'')), (''parameters'', Dict [])])) =
       ([], [], Continue)
   \<and> turn [] (Line ''hello'', Returns (TopDict [(''parameters'', Dict [])])) =
       ([], [], Continue)"
  by (simp add: not_quit_examples turn_dispatch dispatch_def get_default_def)

text \<open>
  Claim C4, amended. In every store state, a parsed command whose action is absent or
  is none of \<open>add_task\<close>, \<open>list_tasks\<close>, \<open>error\<close> creates no task: the store is
  unchanged, nothing is printed and the loop continues.
\<close>

theorem unknown_action_no_task:
  assumes "\<not> wants_quit l"
    and "get_default cmd ''action'' (Val PNone) \<notin>
           set [Val (PStr ''add_task''), Val (PStr ''list_tasks''), Val (PStr ''error'')]"
  shows "turn tasks (Line l, Returns (TopDict cmd)) = (tasks, [], Continue)"
  using assms by (simp add: turn_dispatch dispatch_def)

theorem unknown_action_no_task_witness:
  "\<not> wants_quit ''hello''
   \<and> get_default [(''action'', Val (PStr ''remove_task''))] ''action'' (Val PNone) \<notin>
           set [Val (PStr ''add_task''), Val (PStr ''list_tasks''), Val (PStr ''error'')]
   \<and> turn [] (Line ''hello'', Returns (TopDict [(''action'', Val (PStr ''remove_task''))])) =
       ([], [], Continue)"
proof -
  have nq: "\<not> wants_quit ''hello''" by (rule not_quit_examples)
  have a: "get_default [(''action'', Val (PStr ''remove_task''))] ''action'' (Val PNone) \<notin>
           set [Val (PStr ''add_task''), Val (PStr ''list_tasks''), Val (PStr ''error'')]"
    by (simp add: get_default_def)
  from unknown_action_no_task [OF nq a, of "[]"] nq a show ?thesis by simp
qed

subsection \<open>The description of a new task\<close>




subsection \<open>Leaving the loop\<close>



subsection \<open>The order of the list\<close>

text \<open>
  First the dates: a digit compares as its value, so two well-formed dates compare as
  strings the way they compare as dates. Then the sort: consecutive positions of the
  sorted list have ascending keys.
\<close>

lemma is_digit_bounds: "is_digit c = (48 \<le> (of_char c :: nat) \<and> (of_char c :: nat) \<le> 57)"
  by (simp add: is_digit_def less_eq_char_def)

lemma digit_val_less:
  "is_digit c \<Longrightarrow> is_digit c' \<Longrightarrow> (c < c') = (digit_val c < digit_val c')"
  unfolding is_digit_bounds digit_val_def less_char_def by linarith

lemma digit_val_eq:
  assumes "is_digit c" "is_digit c'"
  shows "(c = c') = (digit_val c = digit_val c')"
proof
  assume "digit_val c = digit_val c'"
  moreover from assms have "48 \<le> (of_char c :: nat)" "48 \<le> (of_char c' :: nat)"
    by (simp_all add: is_digit_bounds)
  ultimately have "(of_char c :: nat) = of_char c'"
    unfolding digit_val_def by linarith
  then show "c = c'" by simp
qed simp

lemma digit_val_lt10: "is_digit c \<Longrightarrow> digit_val c < 10"
  unfolding is_digit_bounds digit_val_def by linarith

lemma is_ymd_less_z: "is_ymd s \<Longrightarrow> s < ''z''"
  by (cases s rule: is_ymd.cases) (simp_all add: is_digit_bounds less_char_def)

lemma is_ymd_not_empty: "is_ymd s \<Longrightarrow> s \<noteq> []"
  by auto

lemma lex_less:
  "b < 10 \<Longrightarrow> b' < 10 \<Longrightarrow>
   (10 * a + b < 10 * a' + b') = (a < a' \<or> a = a' \<and> b < (b'::nat))"
  by linarith

lemma lex_eq:
  assumes "b < 10" "b' < 10"
  shows "(10 * a + b = 10 * a' + b') = (a = a' \<and> b = (b'::nat))"
proof
  assume "10 * a + b = 10 * a' + b'"
  with lex_less [OF assms, of a a'] lex_less [OF assms(2,1), of a' a]
  show "a = a' \<and> b = b'" by auto
qed auto

lemma lex_less100:
  "b < 100 \<Longrightarrow> b' < 100 \<Longrightarrow>
   (100 * a + b < 100 * a' + b') = (a < a' \<or> a = a' \<and> b < (b'::nat))"
  by linarith

lemma lex_eq100:
  assumes "b < 100" "b' < 100"
  shows "(100 * a + b = 100 * a' + b') = (a = a' \<and> b = (b'::nat))"
proof
  assume "100 * a + b = 100 * a' + b'"
  with lex_less100 [OF assms, of a a'] lex_less100 [OF assms(2,1), of a' a]
  show "a = a' \<and> b = b'" by auto
qed auto

lemma year_split:
  "1000 * a + 100 * b + 10 * c + d = 100 * (10 * a + b) + (10 * c + (d::nat))"
  by simp

lemma two_digits: "a < 10 \<Longrightarrow> b < 10 \<Longrightarrow> 10 * a + b < (100::nat)"
  by linarith

text \<open>Two digits in front of two strings: the strings compare as the numbers do.\<close>

lemma le_two_digits:
  assumes "is_digit a" "is_digit b" "is_digit a'" "is_digit b'"
  shows "(a # b # r \<le> a' # b' # r') =
         (10 * digit_val a + digit_val b < 10 * digit_val a' + digit_val b'
          \<or> 10 * digit_val a + digit_val b = 10 * digit_val a' + digit_val b' \<and> r \<le> r')"
  using assms
  by (simp add: lex_less lex_eq digit_val_lt10 digit_val_less digit_val_eq) blast


lemma le_four_digits:
  assumes "is_digit a" "is_digit b" "is_digit c" "is_digit d"
    and "is_digit a'" "is_digit b'" "is_digit c'" "is_digit d'"
  shows "(a # b # c # d # r \<le> a' # b' # c' # d' # r') =
         (1000 * digit_val a + 100 * digit_val b + 10 * digit_val c + digit_val d
            < 1000 * digit_val a' + 100 * digit_val b' + 10 * digit_val c' + digit_val d'
          \<or> 1000 * digit_val a + 100 * digit_val b + 10 * digit_val c + digit_val d
            = 1000 * digit_val a' + 100 * digit_val b' + 10 * digit_val c' + digit_val d'
            \<and> r \<le> r')"
proof -
  let ?hi = "10 * digit_val a + digit_val b" and ?lo = "10 * digit_val c + digit_val d"
  let ?hi' = "10 * digit_val a' + digit_val b'" and ?lo' = "10 * digit_val c' + digit_val d'"
  have lo: "?lo < 100" "?lo' < 100"
    using assms by (simp_all add: two_digits digit_val_lt10)
  have "(a # b # c # d # r \<le> a' # b' # c' # d' # r') =
        (?hi < ?hi' \<or> ?hi = ?hi' \<and> (?lo < ?lo' \<or> ?lo = ?lo' \<and> r \<le> r'))"
    using assms by (simp only: le_two_digits)
  also have "\<dots> = (100 * ?hi + ?lo < 100 * ?hi' + ?lo'
                    \<or> 100 * ?hi + ?lo = 100 * ?hi' + ?lo' \<and> r \<le> r')"
    unfolding lex_less100 [OF lo] lex_eq100 [OF lo] by blast
  finally show ?thesis unfolding year_split .
qed

text \<open>On well-formed dates the order of the strings is the order of the dates.\<close>

lemma ymd_le:
  assumes "is_ymd s" "is_ymd t"
  shows "(s \<le> t) = (ymd_date s \<le> ymd_date t)"
proof -
  from assms(1) obtain y1 y2 y3 y4 m1 m2 d1 d2 where
    s: "s = [y1, y2, y3, y4, CHR ''-'', m1, m2, CHR ''-'', d1, d2]"
    and ds: "is_digit y1" "is_digit y2" "is_digit y3" "is_digit y4"
      "is_digit m1" "is_digit m2" "is_digit d1" "is_digit d2"
    by (cases s rule: is_ymd.cases) simp_all
  from assms(2) obtain z1 z2 z3 z4 n1 n2 e1 e2 where
    t: "t = [z1, z2, z3, z4, CHR ''-'', n1, n2, CHR ''-'', e1, e2]"
    and dt: "is_digit z1" "is_digit z2" "is_digit z3" "is_digit z4"
      "is_digit n1" "is_digit n2" "is_digit e1" "is_digit e2"
    by (cases t rule: is_ymd.cases) simp_all
  let ?Y = "1000 * digit_val y1 + 100 * digit_val y2 + 10 * digit_val y3 + digit_val y4"
  let ?Z = "1000 * digit_val z1 + 100 * digit_val z2 + 10 * digit_val z3 + digit_val z4"
  let ?M = "10 * digit_val m1 + digit_val m2" and ?N = "10 * digit_val n1 + digit_val n2"
  let ?D = "10 * digit_val d1 + digit_val d2" and ?E = "10 * digit_val e1 + digit_val e2"
  have hyphen: "(CHR ''-'' # r \<le> CHR ''-'' # r') = (r \<le> r')" for r r' :: string
    by simp
  have day: "([d1, d2] \<le> [e1, e2]) = (?D \<le> ?E)"
    unfolding le_two_digits [OF ds(7,8) dt(7,8)] by auto
  have month: "([m1, m2, CHR ''-'', d1, d2] \<le> [n1, n2, CHR ''-'', e1, e2]) =
               (?M < ?N \<or> ?M = ?N \<and> ?D \<le> ?E)"
    unfolding le_two_digits [OF ds(5,6) dt(5,6)] hyphen day ..
  have "(s \<le> t) = (?Y < ?Z \<or> ?Y = ?Z \<and> (?M < ?N \<or> ?M = ?N \<and> ?D \<le> ?E))"
    unfolding s t le_four_digits [OF ds(1-4) dt(1-4)] hyphen month ..
  also have "\<dots> = (ymd_date s \<le> ymd_date t)"
    unfolding s t by auto
  finally show ?thesis .
qed

lemma ymd_date_example: "ymd_date ''2025-08-18'' = (2025, 8, 18)"
  by (simp add: digit_val_def)


lemma sorted_tasks_keys:
  assumes "i < j" "j < length tasks"
  shows "sort_key_of (sorted_tasks tasks ! i) \<le> sort_key_of (sorted_tasks tasks ! j)"
proof -
  have "sorted (map sort_key_of (sorted_tasks tasks))"
    unfolding sorted_tasks_def by (rule sorted_sort_key)
  moreover have "length (sorted_tasks tasks) = length tasks"
    by (simp add: sorted_tasks_def)
  ultimately show ?thesis
    using assms sorted_iff_nth_mono [of "map sort_key_of (sorted_tasks tasks)"] by simp
qed

lemma sorted_tasks_nth_mem:
  assumes "j < length tasks"
  shows "sorted_tasks tasks ! j \<in> set tasks"
proof -
  have "j < length (sorted_tasks tasks)"
    using assms by (simp add: sorted_tasks_def)
  then have "sorted_tasks tasks ! j \<in> set (sorted_tasks tasks)"
    by (rule nth_mem)
  then show ?thesis by (simp add: sorted_tasks_def)
qed

lemma key_order:
  "(sort_key_of a \<le> sort_key_of b) =
   (or_z (due_date a) < or_z (due_date b)
    \<or> or_z (due_date a) = or_z (due_date b) \<and> task_id a \<le> task_id b)"
  by (auto simp: sort_key_of_def)


lemma or_z_ymd: "is_ymd s \<Longrightarrow> or_z (PStr s) = s"
  by auto

lemma or_z_falsy: "\<not> truthy v \<Longrightarrow> or_z v = ''z''"
  by (cases v) auto

text \<open>
  The order of two tasks \<open>a\<close> before \<open>b\<close> in the sorted list, when every due date is
  \<open>None\<close>, empty or a well-formed date.
\<close>

lemma ordered_pair:
  assumes key: "sort_key_of a \<le> sort_key_of b"
    and a: "\<not> truthy (due_date a) \<or> (\<exists>s. due_date a = PStr s \<and> is_ymd s)"
    and b: "\<not> truthy (due_date b) \<or> (\<exists>s. due_date b = PStr s \<and> is_ymd s)"
  shows "(\<not> truthy (due_date a) \<longrightarrow> \<not> truthy (due_date b) \<and> task_id a \<le> task_id b)
         \<and> (\<forall>s s'. due_date a = PStr s \<and> is_ymd s \<and> due_date b = PStr s' \<and> is_ymd s' \<longrightarrow>
               ymd_date s \<le> ymd_date s')
         \<and> (due_date a = due_date b \<longrightarrow> task_id a \<le> task_id b)"
proof (intro conjI impI allI)
  assume na: "\<not> truthy (due_date a)"
  show "\<not> truthy (due_date b)"
  proof
    assume "truthy (due_date b)"
    with b obtain s where s: "due_date b = PStr s" "is_ymd s" by blast
    then have "or_z (due_date b) < ''z''" by (simp add: is_ymd_not_empty is_ymd_less_z)
    with key na show False by (auto simp: key_order or_z_falsy)
  qed
  then show "task_id a \<le> task_id b"
    using key na by (simp add: key_order or_z_falsy)
next
  fix s s'
  assume "due_date a = PStr s \<and> is_ymd s \<and> due_date b = PStr s' \<and> is_ymd s'"
  then have d: "due_date a = PStr s" "is_ymd s" "due_date b = PStr s'" "is_ymd s'" by simp_all
  with key have "s \<le> s'" by (auto simp: key_order is_ymd_not_empty)
  with d show "ymd_date s \<le> ymd_date s'" by (simp add: ymd_le)
next
  assume "due_date a = due_date b"
  with key show "task_id a \<le> task_id b" by (simp add: key_order)
qed

text \<open>
  Claim C1. For every store whose due dates are each absent (\<open>None\<close>) or a
  \<open>YYYY-MM-DD\<close> string, \<open>list_tasks\<close> prints one line per task, in the order of
  \<open>sorted_tasks\<close>, a permutation of the store, and for any two positions \<open>i < j\<close> of it:
  a task without due date is never before one with a due date; two due dates are in
  ascending order as dates; and tasks with the same due date, or both without, are in
  ascending order of id.
\<close>

theorem list_tasks_order:
  assumes "\<forall>t \<in> set tasks. due_date t = PNone \<or> (\<exists>s. due_date t = PStr s \<and> is_ymd s)"
    and "i < j" and "j < length tasks"
  shows "snd (list_tasks tasks) =
           [ListHeader] @ map task_line (sorted_tasks tasks) @ [ListFooter]
         \<and> mset (sorted_tasks tasks) = mset tasks
         \<and> (due_date (sorted_tasks tasks ! i) = PNone \<longrightarrow>
              due_date (sorted_tasks tasks ! j) = PNone)
         \<and> (\<forall>s s'. due_date (sorted_tasks tasks ! i) = PStr s
                   \<and> due_date (sorted_tasks tasks ! j) = PStr s' \<longrightarrow>
               ymd_date s \<le> ymd_date s')
         \<and> (due_date (sorted_tasks tasks ! i) = due_date (sorted_tasks tasks ! j) \<longrightarrow>
              task_id (sorted_tasks tasks ! i) \<le> task_id (sorted_tasks tasks ! j))"
proof -
  let ?a = "sorted_tasks tasks ! i" and ?b = "sorted_tasks tasks ! j"
  have mem: "?a \<in> set tasks" "?b \<in> set tasks"
    using assms(2,3) by (simp_all add: sorted_tasks_nth_mem)
  with assms(1) have shape:
    "due_date ?a = PNone \<or> (\<exists>s. due_date ?a = PStr s \<and> is_ymd s)"
    "due_date ?b = PNone \<or> (\<exists>s. due_date ?b = PStr s \<and> is_ymd s)"
    by blast+
  then have a: "\<not> truthy (due_date ?a) \<or> (\<exists>s. due_date ?a = PStr s \<and> is_ymd s)"
    and b: "\<not> truthy (due_date ?b) \<or> (\<exists>s. due_date ?b = PStr s \<and> is_ymd s)"
    by auto
  note pair = ordered_pair [OF sorted_tasks_keys [OF assms(2,3)] a b]
  have "tasks \<noteq> []" using assms(3) by auto
  then have printed: "snd (list_tasks tasks) =
      [ListHeader] @ map task_line (sorted_tasks tasks) @ [ListFooter]"
    by (simp add: list_tasks_def)
  have perm: "mset (sorted_tasks tasks) = mset tasks"
    by (simp add: sorted_tasks_def)
  have undated: "due_date ?a = PNone \<longrightarrow> due_date ?b = PNone"
  proof
    assume "due_date ?a = PNone"
    with pair have "\<not> truthy (due_date ?b)" by simp
    with shape(2) show "due_date ?b = PNone" by (auto simp: is_ymd_not_empty)
  qed
  have dated: "\<forall>s s'. due_date ?a = PStr s \<and> due_date ?b = PStr s' \<longrightarrow>
      ymd_date s \<le> ymd_date s'"
    using pair shape by auto
  from printed perm undated dated pair show ?thesis by blast
qed

theorem list_tasks_order_witness:
  "is_ymd ''2025-08-18'' \<and> is_ymd ''2024-12-31''
   \<and> sorted_tasks
        [\<lparr>task_id = 1, description = PStr ''a'', due_date = PNone,
           priority = PStr ''low'', status = ''pending''\<rparr>,
         \<lparr>task_id = 2, description = PStr ''b'', due_date = PStr ''2025-08-18'',
           priority = PStr ''low'', status = ''pending''\<rparr>,
         \<lparr>task_id = 3, description = PStr ''c'', due_date = PStr ''2024-12-31'',
           priority = PStr ''low'', status = ''pending''\<rparr>] =
        [\<lparr>task_id = 3, description = PStr ''c'', due_date = PStr ''2024-12-31'',
           priority = PStr ''low'', status = ''pending''\<rparr>,
         \<lparr>task_id = 2, description = PStr ''b'', due_date = PStr ''2025-08-18'',
           priority = PStr ''low'', status = ''pending''\<rparr>,
         \<lparr>task_id = 1, description = PStr ''a'', due_date = PNone,
           priority = PStr ''low'', status = ''pending''\<rparr>]
   \<and> ymd_date ''2024-12-31'' \<le> ymd_date ''2025-08-18''"
proof -
  let ?t1 = "\<lparr>task_id = 1, description = PStr ''a'', due_date = PNone,
           priority = PStr ''low'', status = ''pending''\<rparr>"
  let ?t2 = "\<lparr>task_id = 2, description = PStr ''b'', due_date = PStr ''2025-08-18'',
           priority = PStr ''low'', status = ''pending''\<rparr>"
  let ?t3 = "\<lparr>task_id = 3, description = PStr ''c'', due_date = PStr ''2024-12-31'',
           priority = PStr ''low'', status = ''pending''\<rparr>"
  have ymd: "is_ymd ''2025-08-18''" "is_ymd ''2024-12-31''"
    by (simp_all add: is_digit_def)
  then have shape: "\<forall>t \<in> set [?t1, ?t2, ?t3].
      due_date t = PNone \<or> (\<exists>s. due_date t = PStr s \<and> is_ymd s)"
    by simp
  have sorted: "sorted_tasks [?t1, ?t2, ?t3] = [?t3, ?t2, ?t1]"
    by (simp add: sorted_tasks_def sort_key_of_def)
  from list_tasks_order [OF shape, of 0 1] sorted
  have "ymd_date ''2024-12-31'' \<le> ymd_date ''2025-08-18''" by simp
  with ymd sorted show ?thesis by simp
qed

subsection \<open>The empty due date\<close>











end
